theory Spec2Isabelle
  imports Complex_Main
begin

section \<open>Numbers\<close>

text \<open>
  The content script computes with JavaScript numbers. They are modelled as exact
  reals (CSS pixels, scroll offsets, the device pixel ratio); the results of
  \<open>Math.ceil\<close> and \<open>Math.round\<close>, image dimensions and canvas coordinates are
  integers. \<open>Math.round\<close> rounds halves upwards, as \<^const>\<open>round\<close> does.
\<close>

section \<open>Scroll positions of a capture (performCapture, first part)\<close>

text \<open>
  \<^verbatim>\<open>
    const scrollPositions = [];
    let y = 0;
    while (y < targetY) { scrollPositions.push(y); y += scrollStep; }
    if (scrollPositions.length === 0) { scrollPositions.push(0); }
  \<close>
  The loop need not terminate (a step of 0 never reaches a positive target), so it is
  a partial function: \<open>None\<close> is the loop that never returns.
\<close>

partial_function (option) buildScrollPositions ::
  "real \<Rightarrow> real \<Rightarrow> real \<Rightarrow> real list \<Rightarrow> real list option" where
  "buildScrollPositions targetY scrollStep y acc =
     (if y < targetY
      then buildScrollPositions targetY scrollStep (y + scrollStep) (acc @ [y])
      else Some acc)"

definition scrollPositions :: "real \<Rightarrow> real \<Rightarrow> real list option" where
  "scrollPositions targetY scrollStep =
     (case buildScrollPositions targetY scrollStep 0 [] of
        None \<Rightarrow> None
      | Some ps \<Rightarrow> Some (if length ps = 0 then [0] else ps))"

section \<open>The page\<close>

text \<open>
  An element of the page is identified by its position in the document tree: the list
  of child indices leading to it from the root element.
\<close>

type_synonym path = "nat list"

text \<open>
  What the script reads of an element: its \<^verbatim>\<open>id\<close>, the computed \<^verbatim>\<open>overflow-y\<close> and
  \<^verbatim>\<open>position\<close>, \<^verbatim>\<open>scrollHeight\<close>, \<^verbatim>\<open>clientHeight\<close>, \<^verbatim>\<open>clientWidth\<close> (integers
  in the DOM) and the rectangle of \<^verbatim>\<open>getBoundingClientRect()\<close>.
\<close>

record rect =
  rectTop :: real
  rectHeight :: real
  rectWidth :: real

definition rectBottom :: "rect \<Rightarrow> real" where
  "rectBottom r = rectTop r + rectHeight r"

record elem_props =
  elId :: string
  overflowY :: string
  position :: string
  scrollHeight :: int
  clientHeight :: int
  clientWidth :: int
  boundingRect :: rect

datatype element = Element (props: elem_props) (children: "element list")

text \<open>
  The root element has the body among its children; the elements before it (the head)
  and after it are kept apart, so that \<^verbatim>\<open>document.body\<close> always exists.
\<close>

record page =
  innerHeight :: int
  innerWidth :: int
  devicePixelRatio :: real
  title :: string
  htmlProps :: elem_props
  htmlBefore :: "element list"
  bodyEl :: element
  htmlAfter :: "element list"

definition documentElement :: "page \<Rightarrow> element" where
  "documentElement pg = Element (htmlProps pg) (htmlBefore pg @ [bodyEl pg] @ htmlAfter pg)"

definition bodyPath :: "page \<Rightarrow> path" where
  "bodyPath pg = [length (htmlBefore pg)]"

text \<open>\<^verbatim>\<open>el.children\<close>, each child with its path.\<close>

definition childrenAt :: "path \<Rightarrow> element \<Rightarrow> (path \<times> element) list" where
  "childrenAt p el = map (\<lambda>(i, c). (p @ [i], c)) (List.enumerate 0 (children el))"

text \<open>\<^verbatim>\<open>el.id && el.id.startsWith('hvppy-')\<close>\<close>

definition ownElement :: "elem_props \<Rightarrow> bool" where
  "ownElement pr = (elId pr \<noteq> [] \<and> take 6 (elId pr) = ''hvppy-'')"

text \<open>An element without id that neither scrolls nor is positioned.\<close>

definition plainProps :: elem_props where
  "plainProps = \<lparr>elId = '''', overflowY = ''visible'', position = ''static'',
     scrollHeight = 720, clientHeight = 720, clientWidth = 1280,
     boundingRect = \<lparr>rectTop = 0, rectHeight = 720, rectWidth = 1280\<rparr>\<rparr>"

section \<open>Frames, images and the canvas\<close>

datatype js_error = Error string | TypeError string

text \<open>
  A capture is \<^verbatim>\<open>{ dataUrl: response.dataUrl, scrollY: actualScrollY }\<close>; the data
  URL is \<open>None\<close> when the response had no such field (\<^verbatim>\<open>undefined\<close>).
\<close>

record capture =
  dataUrl :: "string option"
  scrollY :: real

record image =
  imgSrc :: string
  imgWidth :: int
  imgHeight :: int

text \<open>
  The calls made on the 2D context are kept in the order they are made:
  \<^verbatim>\<open>fillRect(x, y, w, h)\<close> with the fill style in force, and
  \<^verbatim>\<open>drawImage(img, sx, sy, sw, sh, dx, dy, dw, dh)\<close>.
\<close>

datatype draw_op =
    FillRect string int int int int
  | DrawImage image int int int int int int int int

record canvas =
  canvasWidth :: int
  canvasHeight :: int
  ops :: "draw_op list"

text \<open>A string handed to the download: a literal, or \<^verbatim>\<open>canvas.toDataURL('image/png')\<close>.\<close>

datatype url = Str string | CanvasPng canvas

datatype ctx_kind = WindowCtx | ContainerCtx

record scroll_ctx =
  ctxType :: ctx_kind
  element :: "(path \<times> element) option"
  containerTop :: real
  scrollStep :: real

text \<open>
  \<^verbatim>\<open>loadImage(src)\<close> resolves with the decoded image or rejects with
  \<^verbatim>\<open>new Error('Failed to load captured image')\<close>. The decoder is the browser's;
  it is a parameter. Assigning \<^verbatim>\<open>undefined\<close> to \<^verbatim>\<open>img.src\<close> stores the string
  \<^verbatim>\<open>"undefined"\<close>.
\<close>

definition loadImage :: "(string \<Rightarrow> image option) \<Rightarrow> string option \<Rightarrow> js_error + image" where
  "loadImage decode src =
     (case decode (case src of None \<Rightarrow> ''undefined'' | Some u \<Rightarrow> u) of
        None \<Rightarrow> Inl (Error ''Failed to load captured image'')
      | Some img \<Rightarrow> Inr img)"

definition fillRect :: "string \<Rightarrow> int \<Rightarrow> int \<Rightarrow> int \<Rightarrow> int \<Rightarrow> canvas \<Rightarrow> canvas" where
  "fillRect fillStyle x y w h cv = cv\<lparr>ops := ops cv @ [FillRect fillStyle x y w h]\<rparr>"

definition drawImage ::
  "image \<Rightarrow> int \<Rightarrow> int \<Rightarrow> int \<Rightarrow> int \<Rightarrow> int \<Rightarrow> int \<Rightarrow> int \<Rightarrow> int \<Rightarrow> canvas \<Rightarrow> canvas" where
  "drawImage img sx sy sw sh dx dy dw dh cv =
     cv\<lparr>ops := ops cv @ [DrawImage img sx sy sw sh dx dy dw dh]\<rparr>"

section \<open>stitchWindowScroll\<close>

text \<open>The loop \<^verbatim>\<open>for (const capture of captures)\<close>; a failed load aborts it.\<close>

fun drawWindowCaptures ::
  "(string \<Rightarrow> image option) \<Rightarrow> real \<Rightarrow> int \<Rightarrow> capture list \<Rightarrow> canvas \<Rightarrow> js_error + canvas" where
  "drawWindowCaptures decode dpr cHeight [] cv = Inr cv"
| "drawWindowCaptures decode dpr cHeight (c # cs) cv =
     (case loadImage decode (dataUrl c) of
        Inl e \<Rightarrow> Inl e
      | Inr img \<Rightarrow>
          (let drawY = round (scrollY c * dpr);
               availableHeight = cHeight - drawY;
               drawHeight = min (imgHeight img) availableHeight
           in drawWindowCaptures decode dpr cHeight cs
                (if drawHeight > 0
                 then drawImage img 0 0 (imgWidth img) drawHeight
                        0 drawY (imgWidth img) drawHeight cv
                 else cv)))"

definition stitchWindowScroll ::
  "(string \<Rightarrow> image option) \<Rightarrow> capture list \<Rightarrow> real \<Rightarrow> real \<Rightarrow> real \<Rightarrow> js_error + url" where
  "stitchWindowScroll decode captures targetY viewportWidth dpr =
     (let cHeight = \<lceil>targetY * dpr\<rceil>;
          cWidth = \<lceil>viewportWidth * dpr\<rceil>;
          cv = \<lparr>canvasWidth = cWidth, canvasHeight = cHeight, ops = []\<rparr>;
          cv = fillRect ''#ffffff'' 0 0 cWidth cHeight cv
      in case drawWindowCaptures decode dpr cHeight captures cv of
           Inl e \<Rightarrow> Inl e
         | Inr cv' \<Rightarrow> Inr (CanvasPng cv'))"

section \<open>stitchContainerScroll\<close>

fun loadImages :: "(string \<Rightarrow> image option) \<Rightarrow> capture list \<Rightarrow> js_error + image list" where
  "loadImages decode [] = Inr []"
| "loadImages decode (c # cs) =
     (case loadImage decode (dataUrl c) of
        Inl e \<Rightarrow> Inl e
      | Inr img \<Rightarrow>
          (case loadImages decode cs of
             Inl e \<Rightarrow> Inl e
           | Inr imgs \<Rightarrow> Inr (img # imgs)))"

text \<open>
  The loop \<^verbatim>\<open>for (let i = 0; i < images.length; i++)\<close>: \<open>n\<close> is
  \<^verbatim>\<open>images.length\<close>, \<open>i\<close> the index of the head of the images still to draw.
\<close>

fun drawContainerImages :: "int \<Rightarrow> int \<Rightarrow> nat \<Rightarrow> nat \<Rightarrow> image list \<Rightarrow> canvas \<Rightarrow> canvas" where
  "drawContainerImages imgH lastCropHeight n i [] cv = cv"
| "drawContainerImages imgH lastCropHeight n i (img # rest) cv =
     (let destY = int i * imgH
      in drawContainerImages imgH lastCropHeight n (Suc i) rest
           (if int i < int n - 1
            then drawImage img 0 0 (imgWidth img) (imgHeight img)
                   0 destY (imgWidth img) (imgHeight img) cv
            else drawImage img 0 0 (imgWidth img) lastCropHeight
                   0 destY (imgWidth img) lastCropHeight cv))"

definition stitchContainerScroll ::
  "(string \<Rightarrow> image option) \<Rightarrow> capture list \<Rightarrow> real \<Rightarrow> real \<Rightarrow> real \<Rightarrow> scroll_ctx
     \<Rightarrow> js_error + url" where
  "stitchContainerScroll decode captures targetY viewportWidth dpr scrollCtx =
     (case loadImages decode captures of
        Inl e \<Rightarrow> Inl e
      | Inr images \<Rightarrow>
          (case images of
             [] \<Rightarrow> Inr (Str '''')
           | img0 # _ \<Rightarrow>
               (let imgH = imgHeight img0;
                    lastCapture = last captures;
                    clickInContainer = targetY - scrollY lastCapture;
                    clickInViewport = containerTop scrollCtx + clickInContainer;
                    lastCropHeight = min \<lceil>clickInViewport * dpr\<rceil> imgH;
                    cHeight = (int (length images) - 1) * imgH + lastCropHeight;
                    cWidth = imgWidth img0;
                    cv = \<lparr>canvasWidth = cWidth, canvasHeight = cHeight, ops = []\<rparr>;
                    cv = fillRect ''#ffffff'' 0 0 cWidth cHeight cv
                in Inr (CanvasPng
                     (drawContainerImages imgH lastCropHeight (length images) 0 images cv)))))"

definition stitchCaptures ::
  "(string \<Rightarrow> image option) \<Rightarrow> capture list \<Rightarrow> real \<Rightarrow> real \<Rightarrow> real \<Rightarrow> scroll_ctx
     \<Rightarrow> js_error + url" where
  "stitchCaptures decode captures targetY viewportWidth dpr scrollCtx =
     (if ctxType scrollCtx = ContainerCtx
      then stitchContainerScroll decode captures targetY viewportWidth dpr scrollCtx
      else stitchWindowScroll decode captures targetY viewportWidth dpr)"


text \<open>Two frames of 1280 by 600 device pixels, taken at scroll offsets 0 and 600.\<close>

definition exampleDecode :: "string \<Rightarrow> image option" where
  "exampleDecode s =
     (if s = ''data:a'' then Some \<lparr>imgSrc = ''data:a'', imgWidth = 1280, imgHeight = 600\<rparr>
      else if s = ''data:b'' then Some \<lparr>imgSrc = ''data:b'', imgWidth = 1280, imgHeight = 600\<rparr>
      else None)"



definition exampleWindowCtx :: scroll_ctx where
  "exampleWindowCtx =
     \<lparr>ctxType = WindowCtx, element = None, containerTop = 0, scrollStep = 600\<rparr>"

section \<open>Scroll container detection\<close>

definition isDocumentScrollable :: "page \<Rightarrow> bool" where
  "isDocumentScrollable pg =
     (if overflowY (htmlProps pg) = ''hidden'' \<and> overflowY (props (bodyEl pg)) = ''hidden''
      then False
      else scrollHeight (htmlProps pg) > innerHeight pg + 50)"

text \<open>
  \<^verbatim>\<open>for (let i = 0; i < el.children.length && queue.length < 4000; i++)
       queue.push(el.children[i]);\<close>
\<close>

fun enqueueChildren :: "(path \<times> element) list \<Rightarrow> (path \<times> element) list \<Rightarrow> (path \<times> element) list" where
  "enqueueChildren queue [] = queue"
| "enqueueChildren queue (c # cs) =
     (if length queue < 4000 then enqueueChildren (queue @ [c]) cs else queue)"

text \<open>The test of the search on a dequeued element.\<close>

definition scrollableBox :: "elem_props \<Rightarrow> bool" where
  "scrollableBox pr =
     ((overflowY pr = ''auto'' \<or> overflowY pr = ''scroll'' \<or> overflowY pr = ''overlay'')
      \<and> scrollHeight pr > clientHeight pr + 10
      \<and> clientHeight pr > 100)"

text \<open>
  The loop \<^verbatim>\<open>while (queue.length > 0 && count < 2000)\<close> of findScrollContainer. The
  queue holds entries of \<^verbatim>\<open>children\<close> collections, which are elements, so the test
  \<^verbatim>\<open>!el || el.nodeType !== 1\<close> never holds and has no branch here.
\<close>

function bfsLoop ::
  "(path \<times> element) list \<Rightarrow> (path \<times> element) option \<Rightarrow> int \<Rightarrow> nat
     \<Rightarrow> (path \<times> element) option" where
  "bfsLoop [] best maxArea count = best"
| "bfsLoop ((p, el) # queue) best maxArea count =
     (if count < 2000
      then (if ownElement (props el)
            then bfsLoop queue best maxArea (Suc count)
            else (if scrollableBox (props el)
                  then (let area = clientHeight (props el) * clientWidth (props el)
                        in if area > maxArea
                           then bfsLoop (enqueueChildren queue (childrenAt p el))
                                  (Some (p, el)) area (Suc count)
                           else bfsLoop (enqueueChildren queue (childrenAt p el))
                                  best maxArea (Suc count))
                  else bfsLoop (enqueueChildren queue (childrenAt p el))
                         best maxArea (Suc count)))
      else best)"
  by pat_completeness auto
termination
  by (relation "measure (\<lambda>(queue, best, maxArea, count). 2000 - count)") auto

definition findScrollContainer :: "page \<Rightarrow> (path \<times> element) option" where
  "findScrollContainer pg =
     (if isDocumentScrollable pg then None
      else bfsLoop (childrenAt (bodyPath pg) (bodyEl pg)) None 0 0)"

text \<open>
  The elements the search examines, in the order it examines them: those it dequeues
  within its budget and does not skip as its own.
\<close>

function examined :: "(path \<times> element) list \<Rightarrow> nat \<Rightarrow> (path \<times> element) list" where
  "examined [] count = []"
| "examined ((p, el) # queue) count =
     (if count < 2000
      then (if ownElement (props el)
            then examined queue (Suc count)
            else (p, el) # examined (enqueueChildren queue (childrenAt p el)) (Suc count))
      else [])"
  by pat_completeness auto
termination
  by (relation "measure (\<lambda>(queue, count). 2000 - count)") auto

definition candidates :: "page \<Rightarrow> (path \<times> element) list" where
  "candidates pg = examined (childrenAt (bodyPath pg) (bodyEl pg)) 0"

text \<open>
  The selection in the words of the specification: a candidate qualifies by its
  overflow, scroll height and client height; among the qualifying ones the one with the
  largest visible area (height times width) is selected, the first found on a tie.
\<close>

definition qualifies :: "path \<times> element \<Rightarrow> bool" where
  "qualifies c =
     (overflowY (props (snd c)) \<in> {''auto'', ''scroll'', ''overlay''}
      \<and> scrollHeight (props (snd c)) - clientHeight (props (snd c)) > 10
      \<and> clientHeight (props (snd c)) > 100)"

definition visibleArea :: "path \<times> element \<Rightarrow> int" where
  "visibleArea c = clientHeight (props (snd c)) * clientWidth (props (snd c))"

definition largestFirst :: "(path \<times> element) list \<Rightarrow> (path \<times> element) option" where
  "largestFirst cs =
     (if cs = [] then None
      else find (\<lambda>c. visibleArea c = Max (visibleArea ` set cs)) cs)"

text \<open>A page whose only scrollable box has no width.\<close>

definition collapsedPanel :: element where
  "collapsedPanel = Element (plainProps\<lparr>overflowY := ''auto'', scrollHeight := 3000,
     clientHeight := 600, clientWidth := 0,
     boundingRect := \<lparr>rectTop = 0, rectHeight = 600, rectWidth = 0\<rparr>\<rparr>) []"

definition collapsedPage :: page where
  "collapsedPage = \<lparr>innerHeight = 720, innerWidth = 1280, devicePixelRatio = 1,
     title = ''Panel'', htmlProps = plainProps, htmlBefore = [],
     bodyEl = Element plainProps [collapsedPanel], htmlAfter = []\<rparr>"

text \<open>
  A page that cannot scroll as a whole, with three scrollable boxes side by side: the
  first two of the same area, the third smaller.
\<close>

definition panel :: "int \<Rightarrow> element" where
  "panel w = Element (plainProps\<lparr>overflowY := ''auto'', scrollHeight := 3000,
     clientHeight := 600, clientWidth := w,
     boundingRect := \<lparr>rectTop = 0, rectHeight = 600, rectWidth = real_of_int w\<rparr>\<rparr>) []"

definition panelsPage :: page where
  "panelsPage = \<lparr>innerHeight = 720, innerWidth = 1280, devicePixelRatio = 1,
     title = ''Panels'', htmlProps = plainProps\<lparr>overflowY := ''hidden''\<rparr>, htmlBefore = [],
     bodyEl = Element (plainProps\<lparr>overflowY := ''hidden''\<rparr>) [panel 400, panel 400, panel 300],
     htmlAfter = []\<rparr>"

section \<open>Hiding and restoring overlay elements\<close>

text \<open>
  The inline style of an element, as far as the script touches it: the declaration of
  \<^verbatim>\<open>visibility\<close>, its value (the empty string when there is no declaration) and whether
  it carries the priority \<^verbatim>\<open>important\<close>. The store maps each element to it.
  \<^item> \<^verbatim>\<open>el.style.visibility\<close> reads the value;
  \<^item> \<^verbatim>\<open>el.style.setProperty('visibility', v, 'important')\<close> declares \<open>v\<close> with the
    priority;
  \<^item> the assignment \<^verbatim>\<open>el.style.visibility = v\<close> declares \<open>v\<close> without a priority;
  \<^item> \<^verbatim>\<open>el.style.removeProperty('visibility')\<close> removes the declaration.
\<close>

type_synonym style_store = "path \<Rightarrow> string \<times> bool"

definition getVisibility :: "style_store \<Rightarrow> path \<Rightarrow> string" where
  "getVisibility st p = fst (st p)"

definition setPropertyImportant :: "path \<Rightarrow> string \<Rightarrow> style_store \<Rightarrow> style_store" where
  "setPropertyImportant p v st = st(p := (v, True))"

definition assignVisibility :: "path \<Rightarrow> string \<Rightarrow> style_store \<Rightarrow> style_store" where
  "assignVisibility p v st = st(p := (v, False))"

definition removeProperty :: "path \<Rightarrow> style_store \<Rightarrow> style_store" where
  "removeProperty p st = st(p := ('''', False))"

text \<open>A record \<^verbatim>\<open>{ el, prev }\<close> of the list \<^verbatim>\<open>hidden\<close>.\<close>

type_synonym hidden_rec = "path \<times> string"

text \<open>\<^verbatim>\<open>document.querySelectorAll('*')\<close>: every element, in document order.\<close>

fun allElements :: "path \<Rightarrow> element \<Rightarrow> (path \<times> element) list"
  and allChildren :: "path \<Rightarrow> nat \<Rightarrow> element list \<Rightarrow> (path \<times> element) list" where
  "allElements p (Element pr cs) = (p, Element pr cs) # allChildren p 0 cs"
| "allChildren p i [] = []"
| "allChildren p i (c # cs) = allElements (p @ [i]) c @ allChildren p (Suc i) cs"

text \<open>The element at a path below a root, if there is one.\<close>

fun nodeAt :: "element \<Rightarrow> path \<Rightarrow> element option" where
  "nodeAt el [] = Some el"
| "nodeAt el (i # p) =
     (if i < length (children el) then nodeAt (children el ! i) p else None)"

text \<open>First pass of hideOverlayElements: the fixed and sticky elements.\<close>

fun hideFixed ::
  "(path \<times> element) list \<Rightarrow> hidden_rec list \<Rightarrow> style_store \<Rightarrow> hidden_rec list \<times> style_store" where
  "hideFixed [] hidden st = (hidden, st)"
| "hideFixed ((p, el) # rest) hidden st =
     (if ownElement (props el) then hideFixed rest hidden st
      else if position (props el) = ''fixed'' \<or> position (props el) = ''sticky''
      then hideFixed rest (hidden @ [(p, getVisibility st p)])
             (setPropertyImportant p ''hidden'' st)
      else hideFixed rest hidden st)"

text \<open>Second pass, the loop \<^verbatim>\<open>for (const sibling of parent.children)\<close>.\<close>

fun hideSiblings ::
  "rect \<Rightarrow> path \<Rightarrow> (path \<times> element) list \<Rightarrow> hidden_rec list \<Rightarrow> style_store
     \<Rightarrow> hidden_rec list \<times> style_store" where
  "hideSiblings containerRect current [] hidden st = (hidden, st)"
| "hideSiblings containerRect current ((p, sibling) # rest) hidden st =
     (if p = current then hideSiblings containerRect current rest hidden st
      else if ownElement (props sibling) then hideSiblings containerRect current rest hidden st
      else if p \<in> fst ` set hidden then hideSiblings containerRect current rest hidden st
      else (let sibRect = boundingRect (props sibling)
            in if rectBottom sibRect > rectTop containerRect
                  \<and> rectTop sibRect < rectBottom containerRect
                  \<and> rectWidth sibRect > 0 \<and> rectHeight sibRect > 0
               then hideSiblings containerRect current rest
                      (hidden @ [(p, getVisibility st p)])
                      (setPropertyImportant p ''hidden'' st)
               else hideSiblings containerRect current rest hidden st))"

text \<open>
  Second pass, the loop \<^verbatim>\<open>while (current && current !== document.documentElement)\<close>:
  the root has the empty path, the parent of another element the path without its
  last index.
\<close>

function walkUp ::
  "element \<Rightarrow> rect \<Rightarrow> path \<Rightarrow> hidden_rec list \<Rightarrow> style_store
     \<Rightarrow> hidden_rec list \<times> style_store" where
  "walkUp rootEl containerRect current hidden st =
     (if current = [] then (hidden, st)
      else (let parent = butlast current
            in case nodeAt rootEl parent of
                 None \<Rightarrow> (hidden, st)
               | Some parentEl \<Rightarrow>
                   (case hideSiblings containerRect current (childrenAt parent parentEl)
                           hidden st of
                      (hidden', st') \<Rightarrow> walkUp rootEl containerRect parent hidden' st')))"
  by pat_completeness auto
termination
  by (relation "measure (\<lambda>(rootEl, containerRect, current, hidden, st). length current)") auto

definition hideOverlayElements ::
  "scroll_ctx \<Rightarrow> page \<Rightarrow> style_store \<Rightarrow> hidden_rec list \<times> style_store" where
  "hideOverlayElements scrollCtx pg st =
     (case hideFixed (allElements [] (documentElement pg)) [] st of
        (hidden, st1) \<Rightarrow>
          (case element scrollCtx of
             None \<Rightarrow> (hidden, st1)
           | Some (cp, containerEl) \<Rightarrow>
               walkUp (documentElement pg) (boundingRect (props containerEl)) cp hidden st1))"

fun restoreHiddenElements :: "hidden_rec list \<Rightarrow> style_store \<Rightarrow> style_store" where
  "restoreHiddenElements [] st = st"
| "restoreHiddenElements ((p, prev) # rest) st =
     restoreHiddenElements rest
       (if prev \<noteq> [] then assignVisibility p prev st else removeProperty p st)"

text \<open>
  What both passes keep true of the list of records and the store, with respect to the
  store \<open>st0\<close> before hiding: no element is recorded twice, each record holds the
  value the element had before, and exactly the recorded elements are hidden.
\<close>

definition hiddenInv :: "style_store \<Rightarrow> hidden_rec list \<Rightarrow> style_store \<Rightarrow> bool" where
  "hiddenInv st0 hidden st \<longleftrightarrow>
     distinct (map fst hidden)
     \<and> (\<forall>h \<in> set hidden. snd h = fst (st0 (fst h)))
     \<and> st = (\<lambda>q. if q \<in> fst ` set hidden then (''hidden'', True) else st0 q)"

text \<open>
  A page with a fixed banner whose inline style is
  \<^verbatim>\<open>visibility: visible !important\<close>; no other element has an inline visibility.
\<close>

definition bannerPage :: page where
  "bannerPage = \<lparr>innerHeight = 720, innerWidth = 1280, devicePixelRatio = 1,
     title = ''Banner'', htmlProps = plainProps\<lparr>scrollHeight := 5000\<rparr>, htmlBefore = [],
     bodyEl = Element (plainProps\<lparr>scrollHeight := 5000\<rparr>)
       [Element (plainProps\<lparr>position := ''fixed'', clientHeight := 60,
           boundingRect := \<lparr>rectTop = 0, rectHeight = 60, rectWidth = 1280\<rparr>\<rparr>) [],
        Element (plainProps\<lparr>scrollHeight := 4940, clientHeight := 4940\<rparr>) []],
     htmlAfter = []\<rparr>"

definition bannerStyles :: style_store where
  "bannerStyles = (\<lambda>p. ('''', False))([0, 0] := (''visible'', True))"

section \<open>The scroll context\<close>

definition createScrollContext :: "page \<Rightarrow> scroll_ctx" where
  "createScrollContext pg =
     (case findScrollContainer pg of
        Some (p, container) \<Rightarrow>
          (let r = boundingRect (props container)
           in \<lparr>ctxType = ContainerCtx, element = Some (p, container),
                containerTop = rectTop r, scrollStep = rectHeight r\<rparr>)
      | None \<Rightarrow>
          \<lparr>ctxType = WindowCtx, element = None, containerTop = 0,
           scrollStep = real_of_int (innerHeight pg)\<rparr>)"

section \<open>The session and its world\<close>

text \<open>
  The texts shown in the progress overlay, and an injected element with what the script
  sets of it.
\<close>

datatype progress_text =
    Preparing
  | InvalidClickPosition
  | CapturingSection nat nat
  | Stitching
  | Saving
  | Saved
  | CaptureFailed string

record ui_el =
  uiId :: string
  uiDisplay :: string
  uiText :: "progress_text option"

text \<open>
  The answer to a \<^verbatim>\<open>captureTab\<close> message: \<^verbatim>\<open>undefined\<close>, or an object whose fields
  \<^verbatim>\<open>error\<close> and \<^verbatim>\<open>dataUrl\<close> may each be missing.
\<close>

datatype response = Undefined | Response (respError: "string option") (respDataUrl: "string option")

text \<open>JavaScript truthiness of a field that is a string or missing.\<close>

definition truthy :: "string option \<Rightarrow> bool" where
  "truthy s = (case s of None \<Rightarrow> False | Some v \<Rightarrow> v \<noteq> [])"

text \<open>
  Everything the content script reads and changes. A scroller is the window (\<open>None\<close>)
  or an element; \<open>scrollMax\<close> is the end of its scroll range. The variables of the
  closure are \<open>barEl\<close>, \<open>guideLineEl\<close>, \<open>progressEl\<close> and \<open>isCapturing\<close>;
  \<open>captureActive\<close> is \<^verbatim>\<open>window.__hvppyCaptureActive\<close> and \<open>deactivateHook\<close> says that
  \<^verbatim>\<open>window.__hvppyCaptureDeactivate\<close> is a function. \<open>attached\<close> lists the injected
  elements that are children of the root element. The snapshot service answers its
  calls in order; \<open>snapshotCalls\<close>, \<open>stitchCalls\<close>, \<open>downloads\<close> and
  \<open>scrollRequests\<close> record the calls made.
\<close>

record world =
  pageOf :: page
  styles :: style_store
  scrollTop :: "path option \<Rightarrow> real"
  scrollMax :: "path option \<Rightarrow> real"
  scrollRequests :: "real list"
  captureActive :: bool
  deactivateHook :: bool
  barEl :: "ui_el option"
  guideLineEl :: "ui_el option"
  progressEl :: "ui_el option"
  isCapturing :: bool
  attached :: "string list"
  mousemoveListener :: bool
  clickListener :: bool
  snapshotService :: "nat \<Rightarrow> response"
  snapshotCalls :: nat
  decodeImage :: "string \<Rightarrow> image option"
  stitchCalls :: nat
  downloads :: "(url \<times> string) list"

record click_event =
  pageY :: real
  clientY :: real
  targetInOwnUI :: bool

datatype session_state = Inactive | AwaitingClick | Capturing

definition sessionState :: "world \<Rightarrow> session_state" where
  "sessionState w =
     (if \<not> captureActive w then Inactive
      else if isCapturing w then Capturing
      else AwaitingClick)"

subsection \<open>The closures of the scroll context\<close>

definition scroller :: "scroll_ctx \<Rightarrow> path option" where
  "scroller scrollCtx = map_option fst (element scrollCtx)"

definition getScrollTop :: "scroll_ctx \<Rightarrow> world \<Rightarrow> real" where
  "getScrollTop scrollCtx w = scrollTop w (scroller scrollCtx)"

text \<open>
  \<^verbatim>\<open>scrollTo({ top: y, left: 0, behavior: 'instant' })\<close>: the browser clamps the
  offset to the scroll range.
\<close>

definition setScroll :: "scroll_ctx \<Rightarrow> real \<Rightarrow> world \<Rightarrow> world" where
  "setScroll scrollCtx y w =
     w\<lparr>scrollTop := (scrollTop w)
          (scroller scrollCtx := max 0 (min y (scrollMax w (scroller scrollCtx)))),
       scrollRequests := scrollRequests w @ [y]\<rparr>"

definition getTargetY :: "scroll_ctx \<Rightarrow> click_event \<Rightarrow> world \<Rightarrow> real" where
  "getTargetY scrollCtx e w =
     (case element scrollCtx of
        Some (p, container) \<Rightarrow> scrollTop w (Some p) + (clientY e - containerTop scrollCtx)
      | None \<Rightarrow> pageY e)"

subsection \<open>UI helpers\<close>

definition hideInteractiveUI :: "world \<Rightarrow> world" where
  "hideInteractiveUI w =
     (let w1 = (case barEl w of
                  None \<Rightarrow> w
                | Some b \<Rightarrow> w\<lparr>barEl := Some (b\<lparr>uiDisplay := ''none''\<rparr>)\<rparr>)
      in case guideLineEl w1 of
           None \<Rightarrow> w1
         | Some g \<Rightarrow> w1\<lparr>guideLineEl := Some (g\<lparr>uiDisplay := ''none''\<rparr>)\<rparr>)"

definition showProgress :: "progress_text \<Rightarrow> world \<Rightarrow> world" where
  "showProgress text w =
     (case progressEl w of
        None \<Rightarrow> w
      | Some pe \<Rightarrow> w\<lparr>progressEl := Some (pe\<lparr>uiText := Some text, uiDisplay := ''block''\<rparr>)\<rparr>)"

text \<open>\<^verbatim>\<open>if (progressEl) progressEl.style.display = d\<close>\<close>

definition setProgressDisplay :: "string \<Rightarrow> world \<Rightarrow> world" where
  "setProgressDisplay d w =
     (case progressEl w of
        None \<Rightarrow> w
      | Some pe \<Rightarrow> w\<lparr>progressEl := Some (pe\<lparr>uiDisplay := d\<rparr>)\<rparr>)"

subsection \<open>deactivate\<close>

text \<open>
  \<^verbatim>\<open>el.remove()\<close> detaches the element; called on \<^verbatim>\<open>null\<close> it throws a TypeError.
\<close>

definition removeEl :: "ui_el option \<Rightarrow> world \<Rightarrow> js_error + world" where
  "removeEl el w =
     (case el of
        None \<Rightarrow> Inl (TypeError ''Cannot read properties of null'')
      | Some u \<Rightarrow> Inr (w\<lparr>attached := remove1 (uiId u) (attached w)\<rparr>))"

definition thenE :: "js_error + 'a \<Rightarrow> ('a \<Rightarrow> js_error + 'b) \<Rightarrow> js_error + 'b" where
  "thenE r f = (case r of Inl e \<Rightarrow> Inl e | Inr x \<Rightarrow> f x)"

definition deactivate :: "world \<Rightarrow> js_error + world" where
  "deactivate w =
     (let w0 = w\<lparr>mousemoveListener := False, clickListener := False\<rparr>
      in thenE (if barEl w0 \<noteq> None then removeEl (barEl w0) w0 else Inr w0) (\<lambda>w1.
         thenE (if guideLineEl w1 \<noteq> None then removeEl (guideLineEl w1) w1 else Inr w1) (\<lambda>w2.
         thenE (if progressEl w2 \<noteq> None then removeEl (progressEl w2) w2 else Inr w2) (\<lambda>w3.
         Inr (w3\<lparr>barEl := None, guideLineEl := None, progressEl := None,
                 isCapturing := False, captureActive := False\<rparr>)))))"

subsection \<open>activate and the injected script\<close>

definition activate :: "world \<Rightarrow> world" where
  "activate w =
     w\<lparr>barEl := Some \<lparr>uiId = ''hvppy-capture-bar'', uiDisplay = '''', uiText = None\<rparr>,
       guideLineEl := Some \<lparr>uiId = ''hvppy-guide-line'', uiDisplay = '''', uiText = None\<rparr>,
       progressEl := Some \<lparr>uiId = ''hvppy-progress'', uiDisplay = ''none'', uiText = None\<rparr>,
       attached := attached w @ [''hvppy-capture-bar'', ''hvppy-guide-line'', ''hvppy-progress''],
       mousemoveListener := True,
       clickListener := True\<rparr>"

text \<open>The handler of the cancel button.\<close>

definition onCancelClick :: "world \<Rightarrow> js_error + world" where
  "onCancelClick w = deactivate w"

text \<open>
  One run of the injected script, which is what an activation trigger does: the toggle
  guard, or else a fresh closure, \<^verbatim>\<open>activate()\<close> and the exposed \<^verbatim>\<open>deactivate\<close>.
\<close>

definition inject :: "world \<Rightarrow> js_error + world" where
  "inject w =
     (if captureActive w
      then (if deactivateHook w then deactivate w else Inr w)
      else (let w1 = w\<lparr>captureActive := True\<rparr>;
                w2 = w1\<lparr>guideLineEl := None, barEl := None, progressEl := None,
                        isCapturing := False\<rparr>;
                w3 = activate w2
            in Inr (w3\<lparr>deactivateHook := True\<rparr>)))"

section \<open>performCapture\<close>

text \<open>
  The message \<^verbatim>\<open>{ action: 'captureTab' }\<close>: the service's next answer, and one more
  call made.
\<close>

definition sendCaptureTab :: "world \<Rightarrow> response \<times> world" where
  "sendCaptureTab w =
     (snapshotService w (snapshotCalls w), w\<lparr>snapshotCalls := Suc (snapshotCalls w)\<rparr>)"

text \<open>
  The body of the loop over the scroll positions up to the receipt of the response and
  the restoring of the hidden elements: the response, the scroll offset read back, and
  the world after it. Waiting for paints and delays changes nothing here.
\<close>

definition captureStep ::
  "scroll_ctx \<Rightarrow> nat \<Rightarrow> nat \<Rightarrow> real \<Rightarrow> world \<Rightarrow> response \<times> real \<times> world" where
  "captureStep scrollCtx i n scrollTarget w =
     (let w1 = showProgress (CapturingSection (i + 1) n) w;
          w2 = setScroll scrollCtx scrollTarget w1;
          actualScrollY = getScrollTop scrollCtx w2;
          w3 = setProgressDisplay ''none'' w2
      in case hideOverlayElements scrollCtx (pageOf w3) (styles w3) of
           (hiddenEls, st) \<Rightarrow>
             (case sendCaptureTab (w3\<lparr>styles := st\<rparr>) of
                (response, w4) \<Rightarrow>
                  (let w5 = w4\<lparr>styles := restoreHiddenElements hiddenEls (styles w4)\<rparr>;
                       w6 = setProgressDisplay ''block'' w5
                   in (response, actualScrollY, w6))))"

text \<open>
  The loop \<^verbatim>\<open>for (let i = 0; i < scrollPositions.length; i++)\<close>, from index \<open>i\<close> on:
  a response with a truthy \<^verbatim>\<open>error\<close> throws, and so does reading \<^verbatim>\<open>dataUrl\<close> of an
  undefined response.
\<close>

fun captureSteps ::
  "scroll_ctx \<Rightarrow> nat \<Rightarrow> nat \<Rightarrow> real list \<Rightarrow> capture list \<Rightarrow> world
     \<Rightarrow> (js_error + capture list) \<times> world" where
  "captureSteps scrollCtx i n [] captures w = (Inr captures, w)"
| "captureSteps scrollCtx i n (scrollTarget # rest) captures w =
     (case captureStep scrollCtx i n scrollTarget w of
        (response, actualScrollY, w') \<Rightarrow>
          (case response of
             Undefined \<Rightarrow> (Inl (TypeError ''Cannot read properties of undefined''), w')
           | Response err url \<Rightarrow>
               if truthy err then (Inl (Error (the err)), w')
               else captureSteps scrollCtx (Suc i) n rest
                      (captures @ [\<lparr>dataUrl = url, scrollY = actualScrollY\<rparr>]) w'))"

text \<open>
  performCapture. \<open>None\<close> is the run whose position loop never ends; otherwise the
  result is the world and whether the function returned or threw.
\<close>

definition performCapture ::
  "scroll_ctx \<Rightarrow> real \<Rightarrow> real \<Rightarrow> real \<Rightarrow> string \<Rightarrow> world \<Rightarrow> ((js_error + unit) \<times> world) option" where
  "performCapture scrollCtx targetY viewportWidth dpr pageTitle w =
     (if targetY \<le> 0 then Some (Inr (), showProgress InvalidClickPosition w)
      else (case scrollPositions targetY (scrollStep scrollCtx) of
              None \<Rightarrow> None
            | Some positions \<Rightarrow>
                (case captureSteps scrollCtx 0 (length positions) positions [] w of
                   (Inl e, w1) \<Rightarrow> Some (Inl e, w1)
                 | (Inr captures, w1) \<Rightarrow>
                     (let w2 = showProgress Stitching w1;
                          w3 = w2\<lparr>stitchCalls := Suc (stitchCalls w2)\<rparr>
                      in case stitchCaptures (decodeImage w3) captures targetY viewportWidth
                                dpr scrollCtx of
                           Inl e \<Rightarrow> Some (Inl e, w3)
                         | Inr finalDataUrl \<Rightarrow>
                             (let w4 = showProgress Saving w3;
                                  w5 = w4\<lparr>downloads := downloads w4 @ [(finalDataUrl, pageTitle)]\<rparr>;
                                  w6 = showProgress Saved w5
                              in Some (Inr (), w6))))))"

section \<open>onClick\<close>

definition errMessage :: "js_error \<Rightarrow> string" where
  "errMessage e = (case e of Error m \<Rightarrow> m | TypeError m \<Rightarrow> m)"

text \<open>
  The world at the moment onClick awaits performCapture: \<open>isCapturing\<close> is set, the bar
  and the guide line are hidden and the progress overlay is shown.
\<close>

definition beginCapture :: "world \<Rightarrow> world" where
  "beginCapture w = showProgress Preparing (hideInteractiveUI (w\<lparr>isCapturing := True\<rparr>))"

text \<open>
  The click handler, run to its end without another event in between. A click while
  capturing, or on the script's own bar or progress overlay, returns at once.
\<close>

definition onClick :: "click_event \<Rightarrow> world \<Rightarrow> (js_error + world) option" where
  "onClick e w =
     (if isCapturing w then Some (Inr w)
      else if targetInOwnUI e then Some (Inr w)
      else (let w1 = w\<lparr>isCapturing := True\<rparr>;
                scrollCtx = createScrollContext (pageOf w1);
                targetY = getTargetY scrollCtx e w1;
                viewportWidth = real_of_int (innerWidth (pageOf w1));
                dpr = (if devicePixelRatio (pageOf w1) = 0 then 1
                       else devicePixelRatio (pageOf w1));
                pageTitle = title (pageOf w1);
                originalScroll = getScrollTop scrollCtx w1;
                w2 = hideInteractiveUI w1;
                w3 = showProgress Preparing w2
            in case performCapture scrollCtx targetY viewportWidth dpr pageTitle w3 of
                 None \<Rightarrow> None
               | Some (r, w4) \<Rightarrow>
                   (let w5 = (case r of
                                Inl err \<Rightarrow> showProgress (CaptureFailed (errMessage err)) w4
                              | Inr _ \<Rightarrow> w4);
                        w6 = setScroll scrollCtx originalScroll w5
                    in Some (deactivate w6))))"

section \<open>Notions used to state the properties of a capture\<close>




text \<open>
  A world for the examples: the page with the banner, scrolled to offset 120 of a
  scroll range that ends at 4280, with no session; the snapshot service fails on its
  second call.
\<close>

definition exampleService :: "nat \<Rightarrow> response" where
  "exampleService i =
     (if i = 1 then Response (Some ''Cannot access contents of the page'') None
      else Response None (Some ''data:a''))"

definition exampleWorld :: world where
  "exampleWorld =
     \<lparr>pageOf = bannerPage, styles = bannerStyles,
      scrollTop = (\<lambda>s. 0)(None := 120), scrollMax = (\<lambda>s. 0)(None := 4280),
      scrollRequests = [],
      captureActive = False, deactivateHook = False,
      barEl = None, guideLineEl = None, progressEl = None, isCapturing = False,
      attached = [], mousemoveListener = False, clickListener = False,
      snapshotService = exampleService, snapshotCalls = 0,
      decodeImage = exampleDecode, stitchCalls = 0, downloads = []\<rparr>"

text \<open>The example world after one trigger, and then after a click has begun a capture.\<close>

definition awaitingWorld :: world where
  "awaitingWorld = (activate (exampleWorld\<lparr>captureActive := True\<rparr>))\<lparr>deactivateHook := True\<rparr>"


section \<open>The sequencer's steps\<close>





section \<open>Stitching\<close>









section \<open>Scroll container detection: what is selected\<close>

lemma qualifies_scrollableBox: "qualifies (p, el) = scrollableBox (props el)"
  by (auto simp: qualifies_def scrollableBox_def)

lemma largestFirst_single: "largestFirst [b] = Some b"
  by (simp add: largestFirst_def)

lemma largestFirst_larger_next:
  assumes "visibleArea b < visibleArea c"
  shows "largestFirst (b # c # cs) = largestFirst (c # cs)"
proof -
  define M where "M = Max (visibleArea ` set (c # cs))"
  have ge: "visibleArea c \<le> M" unfolding M_def by simp
  have "Max (insert (visibleArea b) (visibleArea ` set (c # cs))) = max (visibleArea b) M"
    unfolding M_def by (rule Max_insert) simp_all
  then have "Max (visibleArea ` set (b # c # cs)) = max (visibleArea b) M"
    by simp
  also have "\<dots> = M" using ge assms by linarith
  finally have m: "Max (visibleArea ` set (b # c # cs)) = M" .
  have "visibleArea b \<noteq> M" using ge assms by linarith
  then show ?thesis
    unfolding largestFirst_def m M_def [symmetric] by simp
qed

lemma largestFirst_smaller_next:
  assumes "visibleArea c \<le> visibleArea b"
  shows "largestFirst (b # c # cs) = largestFirst (b # cs)"
proof -
  define M where "M = Max (visibleArea ` set (b # cs))"
  have ge: "visibleArea b \<le> M" unfolding M_def by simp
  have "visibleArea ` set (b # c # cs) = insert (visibleArea c) (visibleArea ` set (b # cs))"
    by auto
  moreover have "Max (insert (visibleArea c) (visibleArea ` set (b # cs))) = max (visibleArea c) M"
    unfolding M_def by (rule Max_insert) simp_all
  ultimately have "Max (visibleArea ` set (b # c # cs)) = max (visibleArea c) M"
    by (simp only:)
  also have "\<dots> = M" using ge assms by linarith
  finally have m: "Max (visibleArea ` set (b # c # cs)) = M" .
  show ?thesis
  proof (cases "visibleArea b = M")
    case True
    then show ?thesis unfolding largestFirst_def m M_def [symmetric] by simp
  next
    case False
    with ge assms have "visibleArea c \<noteq> M" by linarith
    with False show ?thesis unfolding largestFirst_def m M_def [symmetric] by simp
  qed
qed

lemma bfsLoop_largestFirst:
  assumes "case best of None \<Rightarrow> maxArea = 0
           | Some b \<Rightarrow> maxArea = visibleArea b \<and> 0 < maxArea"
  shows "bfsLoop queue best maxArea count =
     largestFirst ((case best of None \<Rightarrow> [] | Some b \<Rightarrow> [b])
        @ filter (\<lambda>c. qualifies c \<and> 0 < visibleArea c) (examined queue count))"
  using assms
proof (induction queue best maxArea count rule: bfsLoop.induct)
  case (1 best maxArea count)
  then show ?case
    by (cases best) (simp_all add: largestFirst_def)
next
  case (2 p el queue best maxArea count)
  let ?c = "(p, el)"
  let ?area = "clientHeight (props el) * clientWidth (props el)"
  have area: "visibleArea ?c = ?area" by (simp add: visibleArea_def)
  show ?case
  proof (cases "count < 2000")
    case False
    with "2.prems" show ?thesis
      by (cases best) (simp_all add: largestFirst_def)
  next
    case budget: True
    show ?thesis
    proof (cases "ownElement (props el)")
      case True
      with budget "2.IH"(1) "2.prems" show ?thesis by simp
    next
      case notOwn: False
      show ?thesis
      proof (cases "scrollableBox (props el)")
        case False
        then have "\<not> qualifies ?c" by (simp add: qualifies_scrollableBox)
        with budget notOwn False "2.IH"(4) "2.prems" show ?thesis by simp
      next
        case box: True
        then have q: "qualifies ?c" by (simp add: qualifies_scrollableBox)
        show ?thesis
        proof (cases "?area > maxArea")
          case larger: True
          have pos: "0 < visibleArea ?c"
            using larger "2.prems" area by (cases best) auto
          have ih: "bfsLoop (enqueueChildren queue (childrenAt p el)) (Some ?c) ?area (Suc count)
              = largestFirst (?c # filter (\<lambda>c. qualifies c \<and> 0 < visibleArea c)
                  (examined (enqueueChildren queue (childrenAt p el)) (Suc count)))"
            using "2.IH"(2) [OF budget notOwn box refl larger] pos area by simp
          show ?thesis
          proof (cases best)
            case None
            with budget notOwn box larger ih q pos show ?thesis by simp
          next
            case (Some b)
            with "2.prems" larger area have "visibleArea b < visibleArea ?c" by simp
            from largestFirst_larger_next [OF this]
            show ?thesis using Some budget notOwn box larger ih q pos by simp
          qed
        next
          case notLarger: False
          have ih: "bfsLoop (enqueueChildren queue (childrenAt p el)) best maxArea (Suc count)
              = largestFirst ((case best of None \<Rightarrow> [] | Some b \<Rightarrow> [b])
                  @ filter (\<lambda>c. qualifies c \<and> 0 < visibleArea c)
                  (examined (enqueueChildren queue (childrenAt p el)) (Suc count)))"
            using "2.IH"(3) [OF budget notOwn box refl notLarger "2.prems"] .
          show ?thesis
          proof (cases best)
            case None
            with "2.prems" notLarger area have "\<not> 0 < visibleArea ?c" by simp
            with None budget notOwn box notLarger ih show ?thesis by simp
          next
            case (Some b)
            with "2.prems" notLarger area have le: "visibleArea ?c \<le> visibleArea b" by simp
            from largestFirst_smaller_next [OF this]
            show ?thesis using Some budget notOwn box notLarger ih q by simp
          qed
        qed
      qed
    qed
  qed
qed

text \<open>
  C8, as amended. The document is deemed scrollable unless both the root and the body
  have vertical overflow hidden, and only if the root's scroll height exceeds the
  viewport height by more than 50. Otherwise the search returns, among the elements it
  examines that qualify (overflow-y auto, scroll or overlay; scroll height more than 10
  above the client height; client height above 100) and have a positive visible area,
  the one with the largest area, the first found on a tie; it returns none when no
  examined element qualifies with a positive area.
\<close>

theorem findScrollContainer_selection:
  "isDocumentScrollable pg =
     (\<not> (overflowY (htmlProps pg) = ''hidden'' \<and> overflowY (props (bodyEl pg)) = ''hidden'')
      \<and> scrollHeight (htmlProps pg) - innerHeight pg > 50)
   \<and> findScrollContainer pg =
     (if isDocumentScrollable pg then None
      else largestFirst (filter (\<lambda>c. qualifies c \<and> 0 < visibleArea c) (candidates pg)))"
proof -
  have "bfsLoop (childrenAt (bodyPath pg) (bodyEl pg)) None 0 0 =
      largestFirst (filter (\<lambda>c. qualifies c \<and> 0 < visibleArea c) (candidates pg))"
    using bfsLoop_largestFirst [where best = None and maxArea = 0 and count = 0
        and queue = "childrenAt (bodyPath pg) (bodyEl pg)"]
    by (simp add: candidates_def)
  then show ?thesis
    by (auto simp: findScrollContainer_def isDocumentScrollable_def)
qed

theorem findScrollContainer_selection_witness:
  "\<not> isDocumentScrollable panelsPage
   \<and> findScrollContainer panelsPage = Some ([0, 0], panel 400)"
proof -
  have d: "\<not> isDocumentScrollable panelsPage"
    by (simp add: isDocumentScrollable_def panelsPage_def plainProps_def)
  have c: "candidates panelsPage = [([0, 0], panel 400), ([0, 1], panel 400), ([0, 2], panel 300)]"
    by (simp add: candidates_def panelsPage_def childrenAt_def bodyPath_def enumerate_eq_zip
        panel_def plainProps_def ownElement_def upt_rec [of 0] upt_rec [of 1] upt_rec [of 2]
        numeral_3_eq_3)
  have f: "filter (\<lambda>c. qualifies c \<and> 0 < visibleArea c) (candidates panelsPage)
      = [([0, 0], panel 400), ([0, 1], panel 400), ([0, 2], panel 300)]"
    unfolding c by (simp add: qualifies_def visibleArea_def panel_def plainProps_def)
  have l: "largestFirst [([0, 0], panel 400), ([0, 1], panel 400), ([0, 2], panel 300)]
      = Some ([0, 0], panel 400)"
    by (simp add: largestFirst_def visibleArea_def panel_def plainProps_def)
  from findScrollContainer_selection [of panelsPage]
  have "findScrollContainer panelsPage =
     (if isDocumentScrollable panelsPage then None else Some ([0, 0], panel 400))"
    unfolding f l by (rule conjunct2)
  with d show ?thesis by simp
qed

lemma collapsed_candidates: "candidates collapsedPage = [([0, 0], collapsedPanel)]"
  by (simp add: candidates_def collapsedPage_def childrenAt_def bodyPath_def enumerate_eq_zip
      collapsedPanel_def plainProps_def ownElement_def)

text \<open>
  C8 as stated fails on a page whose only qualifying candidate has client width 0: its
  area 0 is not above the initial maximum 0, and the search returns none although a
  candidate qualifies.
\<close>

theorem findScrollContainer_zero_width_counterexample:
  "\<not> isDocumentScrollable collapsedPage
   \<and> filter qualifies (candidates collapsedPage) = [([0, 0], collapsedPanel)]
   \<and> largestFirst (filter qualifies (candidates collapsedPage)) = Some ([0, 0], collapsedPanel)
   \<and> findScrollContainer collapsedPage = None"
proof -
  have q: "qualifies ([0, 0], collapsedPanel)"
    by (simp add: qualifies_def collapsedPanel_def plainProps_def)
  have d: "\<not> isDocumentScrollable collapsedPage"
    by (simp add: isDocumentScrollable_def collapsedPage_def plainProps_def)
  have f: "findScrollContainer collapsedPage = None"
    using d
    by (simp add: findScrollContainer_def collapsedPage_def childrenAt_def bodyPath_def
        enumerate_eq_zip collapsedPanel_def plainProps_def ownElement_def scrollableBox_def)
  show ?thesis
    using q d f by (simp add: collapsed_candidates largestFirst_single)
qed

section \<open>Hiding and restoring: the round trip\<close>

lemma allElements_paths:
  "q \<in> fst ` set (allElements p e) \<Longrightarrow> \<exists>r. q = p @ r"
  "q \<in> fst ` set (allChildren p i cs) \<Longrightarrow> \<exists>j r. i \<le> j \<and> q = p @ j # r"
proof (induction p e and p i cs arbitrary: q and q rule: allElements_allChildren.induct)
  case (1 p pr cs)
  then show ?case by fastforce
next
  case (2 p i)
  then show ?case by simp
next
  case (3 p i c cs)
  from "3.prems" consider "q \<in> fst ` set (allElements (p @ [i]) c)"
    | "q \<in> fst ` set (allChildren p (Suc i) cs)" by auto
  then show ?case
  proof cases
    case 1
    from "3.IH"(1) [OF this] obtain r where "q = (p @ [i]) @ r" by blast
    then show ?thesis by auto
  next
    case 2
    from "3.IH"(2) [OF this] obtain j r where "Suc i \<le> j" "q = p @ j # r" by blast
    then show ?thesis by (intro exI [of _ j] exI [of _ r]) simp
  qed
qed

lemma allElements_distinct:
  "distinct (map fst (allElements p e))"
  "distinct (map fst (allChildren p i cs))"
proof (induction p e and p i cs rule: allElements_allChildren.induct)
  case (1 p pr cs)
  have "p \<notin> fst ` set (allChildren p 0 cs)"
    using allElements_paths(2) [of p p 0 cs] by auto
  with 1 show ?case by simp
next
  case (2 p i)
  show ?case by simp
next
  case (3 p i c cs)
  have "fst ` set (allElements (p @ [i]) c) \<inter> fst ` set (allChildren p (Suc i) cs) = {}"
  proof (rule ccontr)
    assume "\<not> ?thesis"
    then obtain q where a: "q \<in> fst ` set (allElements (p @ [i]) c)"
      and b: "q \<in> fst ` set (allChildren p (Suc i) cs)" by blast
    from allElements_paths(1) [OF a] obtain r where "q = (p @ [i]) @ r" by blast
    moreover from allElements_paths(2) [OF b] obtain j r' where "Suc i \<le> j" "q = p @ j # r'"
      by blast
    ultimately show False by simp
  qed
  with 3 show ?case by simp
qed

lemma hiddenInv_push:
  assumes "hiddenInv st0 hidden st" and "p \<notin> fst ` set hidden"
  shows "hiddenInv st0 (hidden @ [(p, getVisibility st p)]) (setPropertyImportant p ''hidden'' st)"
  using assms
  by (auto simp: hiddenInv_def getVisibility_def setPropertyImportant_def fun_eq_iff)

lemma hideFixed_inv:
  assumes "hiddenInv st0 hidden st" and "distinct (map fst els)"
    and "fst ` set els \<inter> fst ` set hidden = {}"
    and "hideFixed els hidden st = (hidden', st')"
  shows "hiddenInv st0 hidden' st'"
  using assms
proof (induction els hidden st rule: hideFixed.induct)
  case (1 hidden st)
  then show ?case by simp
next
  case (2 p el rest hidden st)
  show ?case
  proof (cases "\<not> ownElement (props el)
      \<and> (position (props el) = ''fixed'' \<or> position (props el) = ''sticky'')")
    case True
    from "2.prems" have notin: "p \<notin> fst ` set hidden" by auto
    have inv: "hiddenInv st0 (hidden @ [(p, getVisibility st p)])
        (setPropertyImportant p ''hidden'' st)"
      by (rule hiddenInv_push [OF "2.prems"(1) notin])
    have disj: "fst ` set rest \<inter> fst ` set (hidden @ [(p, getVisibility st p)]) = {}"
      using "2.prems"(2,3) by auto
    show ?thesis
      using "2.IH"(2) [OF _ _ inv _ disj] True "2.prems"(2,4) by auto
  next
    case False
    then show ?thesis
      using 2 by (auto split: if_splits)
  qed
qed

lemma hideSiblings_inv:
  assumes "hiddenInv st0 hidden st"
    and "hideSiblings cr current sibs hidden st = (hidden', st')"
  shows "hiddenInv st0 hidden' st'"
  using assms
proof (induction cr current sibs hidden st rule: hideSiblings.induct)
  case (1 cr current hidden st)
  then show ?case by simp
next
  case (2 cr current p sibling rest hidden st)
  show ?case
  proof (cases "p \<noteq> current \<and> \<not> ownElement (props sibling) \<and> p \<notin> fst ` set hidden
      \<and> rectBottom (boundingRect (props sibling)) > rectTop cr
      \<and> rectTop (boundingRect (props sibling)) < rectBottom cr
      \<and> rectWidth (boundingRect (props sibling)) > 0
      \<and> rectHeight (boundingRect (props sibling)) > 0")
    case True
    then have notin: "p \<notin> fst ` set hidden" by simp
    have inv: "hiddenInv st0 (hidden @ [(p, getVisibility st p)])
        (setPropertyImportant p ''hidden'' st)"
      by (rule hiddenInv_push [OF "2.prems"(1) notin])
    show ?thesis
      using "2.IH"(4) [OF _ _ _ refl _ inv] True "2.prems"(2) by (auto simp: Let_def)
  next
    case False
    then show ?thesis
      using 2 by (auto simp: Let_def split: if_splits)
  qed
qed

lemma walkUp_inv:
  assumes "hiddenInv st0 hidden st"
    and "walkUp rootEl cr current hidden st = (hidden', st')"
  shows "hiddenInv st0 hidden' st'"
  using assms
proof (induction rootEl cr current hidden st rule: walkUp.induct)
  case (1 rootEl cr current hidden st)
  show ?case
  proof (cases "current = []")
    case True
    with "1.prems" show ?thesis by simp
  next
    case ne: False
    show ?thesis
    proof (cases "nodeAt rootEl (butlast current)")
      case None
      with ne "1.prems" show ?thesis by simp
    next
      case (Some parentEl)
      obtain h1 s1 where step:
        "hideSiblings cr current (childrenAt (butlast current) parentEl) hidden st = (h1, s1)"
        by (cases "hideSiblings cr current (childrenAt (butlast current) parentEl) hidden st")
      have inv1: "hiddenInv st0 h1 s1"
        by (rule hideSiblings_inv [OF "1.prems"(1) step])
      have "walkUp rootEl cr (butlast current) h1 s1 = (hidden', st')"
        using "1.prems"(2) ne Some step by (simp add: Let_def)
      from "1.IH" [OF ne refl Some step [symmetric] inv1 this]
      show ?thesis .
    qed
  qed
qed

lemma hideOverlayElements_inv:
  assumes "hideOverlayElements ctx pg st = (hidden, st1)"
  shows "hiddenInv st hidden st1"
proof -
  obtain h0 s0 where p1: "hideFixed (allElements [] (documentElement pg)) [] st = (h0, s0)"
    by (cases "hideFixed (allElements [] (documentElement pg)) [] st")
  have start: "hiddenInv st [] st" by (simp add: hiddenInv_def)
  have inv0: "hiddenInv st h0 s0"
    by (rule hideFixed_inv [OF start allElements_distinct(1) _ p1]) simp
  show ?thesis
  proof (cases "element ctx")
    case None
    with assms p1 inv0 show ?thesis by (simp add: hideOverlayElements_def)
  next
    case (Some c)
    obtain cp containerEl where c: "c = (cp, containerEl)" by (cases c)
    from assms p1 Some c
    have "walkUp (documentElement pg) (boundingRect (props containerEl)) cp h0 s0 = (hidden, st1)"
      by (simp add: hideOverlayElements_def)
    from walkUp_inv [OF inv0 this] show ?thesis .
  qed
qed

lemma restoreHiddenElements_distinct:
  "distinct (map fst hidden) \<Longrightarrow>
   restoreHiddenElements hidden st =
     (\<lambda>q. case map_of hidden q of None \<Rightarrow> st q | Some prev \<Rightarrow> (prev, False))"
proof (induction hidden arbitrary: st)
  case Nil
  then show ?case by simp
next
  case (Cons h hidden)
  obtain p prev where h: "h = (p, prev)" by (cases h)
  from Cons.prems h have notin: "map_of hidden p = None" and d: "distinct (map fst hidden)"
    by (auto simp: map_of_eq_None_iff)
  show ?case
    using notin
    by (auto simp: h Cons.IH [OF d] assignVisibility_def removeProperty_def fun_eq_iff
        split: option.splits)
qed

lemma restore_after_hide:
  assumes "hideOverlayElements ctx pg st = (hidden, st1)"
  shows "restoreHiddenElements hidden st1 =
     (\<lambda>q. if q \<in> fst ` set hidden then (fst (st q), False) else st q)"
proof -
  from hideOverlayElements_inv [OF assms]
  have d: "distinct (map fst hidden)"
    and prev: "\<forall>h \<in> set hidden. snd h = fst (st (fst h))"
    and st1: "st1 = (\<lambda>q. if q \<in> fst ` set hidden then (''hidden'', True) else st q)"
    by (simp_all add: hiddenInv_def)
  show ?thesis
  proof (rule ext)
    fix q
    show "restoreHiddenElements hidden st1 q =
        (if q \<in> fst ` set hidden then (fst (st q), False) else st q)"
    proof (cases "map_of hidden q")
      case None
      then have "q \<notin> fst ` set hidden" by (simp add: map_of_eq_None_iff)
      with None show ?thesis
        by (simp add: restoreHiddenElements_distinct [OF d] st1)
    next
      case (Some v)
      then have m: "(q, v) \<in> set hidden" by (rule map_of_SomeD)
      with prev have "v = fst (st q)" by fastforce
      moreover from m have "q \<in> fst ` set hidden" by force
      ultimately show ?thesis
        using Some by (simp add: restoreHiddenElements_distinct [OF d])
    qed
  qed
qed

lemma restore_after_hide_no_priority:
  assumes "hideOverlayElements ctx pg st = (hidden, st1)" and "\<forall>q. \<not> snd (st q)"
  shows "restoreHiddenElements hidden st1 = st"
  using assms(2) by (auto simp: restore_after_hide [OF assms(1)] fun_eq_iff prod_eq_iff)

text \<open>
  C6. The round trip does not restore every element's inline visibility exactly. The
  record keeps the value of the declaration but not its priority, and the assignment
  that writes the value back declares it without one: a fixed banner with the inline
  style \<^verbatim>\<open>visibility: visible !important\<close> is hidden, and after the restore its inline
  style is \<^verbatim>\<open>visibility: visible\<close>. (By \<open>restore_after_hide\<close> the value is always
  restored, and by \<open>restore_after_hide_no_priority\<close> the whole store is when no
  declaration carried a priority.)
\<close>

theorem restoreHiddenElements_drops_priority:
  "hideOverlayElements exampleWindowCtx bannerPage bannerStyles =
     ([([0, 0], ''visible'')], bannerStyles([0, 0] := (''hidden'', True)))
   \<and> restoreHiddenElements [([0, 0], ''visible'')]
         (bannerStyles([0, 0] := (''hidden'', True))) [0, 0] = (''visible'', False)
   \<and> bannerStyles [0, 0] = (''visible'', True)"
  by (simp add: hideOverlayElements_def exampleWindowCtx_def bannerPage_def documentElement_def
      plainProps_def ownElement_def getVisibility_def setPropertyImportant_def
      assignVisibility_def bannerStyles_def)

section \<open>Teardown and the toggle\<close>

lemma deactivate_eq:
  "deactivate w =
     Inr (w\<lparr>mousemoveListener := False, clickListener := False,
            attached :=
              (let a1 = (case barEl w of None \<Rightarrow> attached w
                         | Some u \<Rightarrow> remove1 (uiId u) (attached w));
                   a2 = (case guideLineEl w of None \<Rightarrow> a1 | Some u \<Rightarrow> remove1 (uiId u) a1)
               in case progressEl w of None \<Rightarrow> a2 | Some u \<Rightarrow> remove1 (uiId u) a2),
            barEl := None, guideLineEl := None, progressEl := None,
            isCapturing := False, captureActive := False\<rparr>)"
  by (cases "barEl w"; cases "guideLineEl w"; cases "progressEl w")
     (simp_all add: deactivate_def thenE_def removeEl_def Let_def)

text \<open>
  C10. deactivate never faults, and after it a second deactivate returns the same world:
  the injected elements are already detached and their variables null, so every guarded
  removal is skipped, and the listeners and flags are reset to what they already are.
\<close>

theorem deactivate_idempotent:
  "\<exists>w'. deactivate w = Inr w' \<and> deactivate w' = Inr w'
        \<and> barEl w' = None \<and> guideLineEl w' = None \<and> progressEl w' = None
        \<and> \<not> mousemoveListener w' \<and> \<not> clickListener w'
        \<and> \<not> isCapturing w' \<and> \<not> captureActive w'"
proof -
  obtain w' where first: "deactivate w = Inr w'"
    and cleared: "barEl w' = None" "guideLineEl w' = None" "progressEl w' = None"
    and off: "\<not> mousemoveListener w'" "\<not> clickListener w'"
      "\<not> isCapturing w'" "\<not> captureActive w'"
    by (simp add: deactivate_eq)
  have "deactivate w' = Inr (w'\<lparr>mousemoveListener := False, clickListener := False,
      attached := attached w', barEl := None, guideLineEl := None, progressEl := None,
      isCapturing := False, captureActive := False\<rparr>)"
    by (simp add: deactivate_eq [of w'] cleared)
  also have "\<dots> = Inr w'"
    using cleared off by simp
  finally have second: "deactivate w' = Inr w'" .
  from first second cleared off show ?thesis by blast
qed

lemma inject_exampleWorld: "inject exampleWorld = Inr awaitingWorld"
  by (simp add: inject_def exampleWorld_def awaitingWorld_def activate_def)





section \<open>The capture loop and the click handler\<close>

lemma showProgress_fields:
  "pageOf (showProgress t w) = pageOf w"
  "styles (showProgress t w) = styles w"
  "scrollTop (showProgress t w) = scrollTop w"
  "scrollMax (showProgress t w) = scrollMax w"
  "scrollRequests (showProgress t w) = scrollRequests w"
  "captureActive (showProgress t w) = captureActive w"
  "deactivateHook (showProgress t w) = deactivateHook w"
  "barEl (showProgress t w) = barEl w"
  "guideLineEl (showProgress t w) = guideLineEl w"
  "isCapturing (showProgress t w) = isCapturing w"
  "attached (showProgress t w) = attached w"
  "mousemoveListener (showProgress t w) = mousemoveListener w"
  "clickListener (showProgress t w) = clickListener w"
  "snapshotService (showProgress t w) = snapshotService w"
  "snapshotCalls (showProgress t w) = snapshotCalls w"
  "decodeImage (showProgress t w) = decodeImage w"
  "stitchCalls (showProgress t w) = stitchCalls w"
  "downloads (showProgress t w) = downloads w"
  by (simp_all add: showProgress_def split: option.splits)


lemma hideInteractiveUI_fields:
  "pageOf (hideInteractiveUI w) = pageOf w"
  "styles (hideInteractiveUI w) = styles w"
  "scrollTop (hideInteractiveUI w) = scrollTop w"
  "scrollMax (hideInteractiveUI w) = scrollMax w"
  "scrollRequests (hideInteractiveUI w) = scrollRequests w"
  "captureActive (hideInteractiveUI w) = captureActive w"
  "deactivateHook (hideInteractiveUI w) = deactivateHook w"
  "progressEl (hideInteractiveUI w) = progressEl w"
  "isCapturing (hideInteractiveUI w) = isCapturing w"
  "attached (hideInteractiveUI w) = attached w"
  "mousemoveListener (hideInteractiveUI w) = mousemoveListener w"
  "clickListener (hideInteractiveUI w) = clickListener w"
  "snapshotService (hideInteractiveUI w) = snapshotService w"
  "snapshotCalls (hideInteractiveUI w) = snapshotCalls w"
  "decodeImage (hideInteractiveUI w) = decodeImage w"
  "stitchCalls (hideInteractiveUI w) = stitchCalls w"
  "downloads (hideInteractiveUI w) = downloads w"
  by (simp_all add: hideInteractiveUI_def Let_def split: option.splits)

lemma setScroll_fields:
  "pageOf (setScroll ctx y w) = pageOf w"
  "styles (setScroll ctx y w) = styles w"
  "scrollMax (setScroll ctx y w) = scrollMax w"
  "captureActive (setScroll ctx y w) = captureActive w"
  "deactivateHook (setScroll ctx y w) = deactivateHook w"
  "barEl (setScroll ctx y w) = barEl w"
  "guideLineEl (setScroll ctx y w) = guideLineEl w"
  "progressEl (setScroll ctx y w) = progressEl w"
  "isCapturing (setScroll ctx y w) = isCapturing w"
  "attached (setScroll ctx y w) = attached w"
  "mousemoveListener (setScroll ctx y w) = mousemoveListener w"
  "clickListener (setScroll ctx y w) = clickListener w"
  "snapshotService (setScroll ctx y w) = snapshotService w"
  "snapshotCalls (setScroll ctx y w) = snapshotCalls w"
  "decodeImage (setScroll ctx y w) = decodeImage w"
  "stitchCalls (setScroll ctx y w) = stitchCalls w"
  "downloads (setScroll ctx y w) = downloads w"
  by (simp_all add: setScroll_def)

lemma setScroll_requests: "scrollRequests (setScroll ctx y w) = scrollRequests w @ [y]"
  by (simp add: setScroll_def)




lemma getTargetY_isCapturing:
  "getTargetY scrollCtx e (w\<lparr>isCapturing := b\<rparr>) = getTargetY scrollCtx e w"
  by (simp add: getTargetY_def split: option.splits)

text \<open>
  The click handler runs performCapture in the world \<open>beginCapture w\<close>; that is the
  world another event finds while the capture is in flight.
\<close>

lemma onClick_begins:
  assumes "\<not> isCapturing w" and "\<not> targetInOwnUI e"
  shows "onClick e w =
     (let scrollCtx = createScrollContext (pageOf w)
      in case performCapture scrollCtx (getTargetY scrollCtx e w)
                (real_of_int (innerWidth (pageOf w)))
                (if devicePixelRatio (pageOf w) = 0 then 1 else devicePixelRatio (pageOf w))
                (title (pageOf w)) (beginCapture w) of
           None \<Rightarrow> None
         | Some (r, w4) \<Rightarrow>
             Some (deactivate (setScroll scrollCtx (getScrollTop scrollCtx w)
               (case r of Inl err \<Rightarrow> showProgress (CaptureFailed (errMessage err)) w4
                | Inr _ \<Rightarrow> w4))))"
  using assms
  by (simp add: onClick_def beginCapture_def Let_def getTargetY_isCapturing getScrollTop_def
      split: option.splits)

lemma awaitingWorld_ctx:
  "createScrollContext (pageOf awaitingWorld) =
     \<lparr>ctxType = WindowCtx, element = None, containerTop = 0, scrollStep = 720\<rparr>"
  by (simp add: awaitingWorld_def activate_def exampleWorld_def createScrollContext_def
      findScrollContainer_def isDocumentScrollable_def bannerPage_def plainProps_def)

lemma awaitingWorld_fields:
  "\<not> isCapturing awaitingWorld" "snapshotCalls awaitingWorld = 0"
  "snapshotService awaitingWorld = exampleService" "stitchCalls awaitingWorld = 0"
  "downloads awaitingWorld = []" "scrollRequests awaitingWorld = []"
  "scrollTop awaitingWorld None = 120" "scrollMax awaitingWorld None = 4280"
  by (simp_all add: awaitingWorld_def activate_def exampleWorld_def)



text \<open>
  C5. A click whose target offset is at most 0 makes no snapshot call, no stitch and no
  download; the handler requests the scroll offset it found, leaves all scroll offsets
  and styles as they were, and ends the session: the injected elements and the listeners
  are removed and the state is inactive.
\<close>

theorem onClick_invalid_target:
  assumes idle: "\<not> isCapturing w" "\<not> targetInOwnUI e"
    and ctx: "scrollCtx = createScrollContext (pageOf w)"
    and target: "getTargetY scrollCtx e w \<le> 0"
    and range: "0 \<le> scrollTop w (scroller scrollCtx)"
      "scrollTop w (scroller scrollCtx) \<le> scrollMax w (scroller scrollCtx)"
  shows "\<exists>w'. onClick e w = Some (Inr w')
           \<and> snapshotCalls w' = snapshotCalls w
           \<and> stitchCalls w' = stitchCalls w
           \<and> downloads w' = downloads w
           \<and> scrollRequests w' = scrollRequests w @ [scrollTop w (scroller scrollCtx)]
           \<and> scrollTop w' = scrollTop w
           \<and> styles w' = styles w
           \<and> sessionState w' = Inactive
           \<and> barEl w' = None \<and> guideLineEl w' = None \<and> progressEl w' = None
           \<and> \<not> mousemoveListener w' \<and> \<not> clickListener w'"
proof -
  let ?orig = "scrollTop w (scroller scrollCtx)"
  define w3 where "w3 = showProgress Preparing (hideInteractiveUI (w\<lparr>isCapturing := True\<rparr>))"
  define w4 where "w4 = showProgress InvalidClickPosition w3"
  define w6 where "w6 = setScroll scrollCtx ?orig w4"
  have perform: "performCapture scrollCtx (getTargetY scrollCtx e w) vw d t w3
      = Some (Inr (), w4)" for vw d t
    using target by (simp add: performCapture_def w4_def)
  have click: "onClick e w = Some (deactivate w6)"
    using idle
    by (simp add: onClick_def Let_def ctx [symmetric] getTargetY_isCapturing
        getScrollTop_def w3_def [symmetric] perform w6_def)
  have w4: "snapshotCalls w4 = snapshotCalls w" "stitchCalls w4 = stitchCalls w"
    "downloads w4 = downloads w" "scrollRequests w4 = scrollRequests w"
    "scrollTop w4 = scrollTop w" "scrollMax w4 = scrollMax w" "styles w4 = styles w"
    by (simp_all add: w4_def w3_def showProgress_fields hideInteractiveUI_fields)
  have top: "scrollTop w6 = scrollTop w"
    using range by (simp add: w6_def setScroll_def w4 fun_eq_iff)
  show ?thesis
    unfolding click deactivate_eq
    using w4 top
    by (simp add: sessionState_def) (simp add: w6_def setScroll_fields setScroll_requests w4)
qed

theorem onClick_invalid_target_witness:
  "\<not> isCapturing awaitingWorld
   \<and> getTargetY (createScrollContext (pageOf awaitingWorld))
        \<lparr>pageY = 0, clientY = 0, targetInOwnUI = False\<rparr> awaitingWorld \<le> 0
   \<and> (\<exists>w'. onClick \<lparr>pageY = 0, clientY = 0, targetInOwnUI = False\<rparr> awaitingWorld
               = Some (Inr w')
          \<and> snapshotCalls w' = 0 \<and> stitchCalls w' = 0 \<and> downloads w' = []
          \<and> scrollRequests w' = [120]
          \<and> scrollTop w' None = 120
          \<and> sessionState w' = Inactive)"
proof -
  let ?e = "\<lparr>pageY = 0, clientY = 0, targetInOwnUI = False\<rparr>"
  let ?ctx = "\<lparr>ctxType = WindowCtx, element = None, containerTop = 0, scrollStep = 720\<rparr>"
  have T: "getTargetY ?ctx ?e awaitingWorld \<le> 0"
    by (simp add: getTargetY_def)
  have "\<exists>w'. onClick ?e awaitingWorld = Some (Inr w')
           \<and> snapshotCalls w' = snapshotCalls awaitingWorld
           \<and> stitchCalls w' = stitchCalls awaitingWorld
           \<and> downloads w' = downloads awaitingWorld
           \<and> scrollRequests w' = scrollRequests awaitingWorld @ [scrollTop awaitingWorld (scroller ?ctx)]
           \<and> scrollTop w' = scrollTop awaitingWorld
           \<and> styles w' = styles awaitingWorld
           \<and> sessionState w' = Inactive
           \<and> barEl w' = None \<and> guideLineEl w' = None \<and> progressEl w' = None
           \<and> \<not> mousemoveListener w' \<and> \<not> clickListener w'"
    by (rule onClick_invalid_target [OF awaitingWorld_fields(1) _ awaitingWorld_ctx [symmetric] T])
       (simp_all add: scroller_def awaitingWorld_fields)
  then show ?thesis
    using T by (auto simp: awaitingWorld_fields scroller_def awaitingWorld_ctx)
qed

end
